theory Spec2Isabelle
  imports Main "HOL-Library.Multiset" "HOL-Library.Char_ord" "HOL-Library.List_Lexorder"
    "HOL-Library.AList"
begin

section \<open>JavaScript values\<close>

text \<open>
  Everything \<^verbatim>\<open>Hyperinstall.js\<close> compares or stores is a value produced by
  \<^verbatim>\<open>JSON.parse\<close>, or \<^verbatim>\<open>undefined\<close> (a missing property, a missing argument, an
  absent lockfile). An object is the list of its own enumerable properties in insertion
  order. Only the equality of numbers matters here, and JSON has no NaN: numbers are
  modelled by integers.
\<close>

datatype jsval =
    Undefined
  | Null
  | Bool bool
  | Num int
  | Str string
  | Arr "jsval list"
  | Obj "(string \<times> jsval) list"

text \<open>Truthiness, as the \<^verbatim>\<open>!x\<close> and \<^verbatim>\<open>x && y\<close> of the source test it.\<close>

fun truthy :: "jsval \<Rightarrow> bool" where
  "truthy Undefined = False"
| "truthy Null = False"
| "truthy (Bool b) = b"
| "truthy (Num n) = (n \<noteq> 0)"
| "truthy (Str s) = (s \<noteq> [])"
| "truthy (Arr xs) = True"
| "truthy (Obj ps) = True"

text \<open>
  \<^verbatim>\<open>a === b\<close> for two values that come out of two different calls of
  \<^verbatim>\<open>JSON.parse\<close> (the state file and the config file): primitives are compared by type
  and value, while two arrays or two objects are never the same reference.
\<close>

fun strictEquals :: "jsval \<Rightarrow> jsval \<Rightarrow> bool" where
  "strictEquals Undefined b = (b = Undefined)"
| "strictEquals Null b = (b = Null)"
| "strictEquals (Bool x) b = (b = Bool x)"
| "strictEquals (Num x) b = (b = Num x)"
| "strictEquals (Str x) b = (b = Str x)"
| "strictEquals (Arr xs) b = False"
| "strictEquals (Obj ps) b = False"

fun isPrimitive :: "jsval \<Rightarrow> bool" where
  "isPrimitive (Arr xs) = False"
| "isPrimitive (Obj ps) = False"
| "isPrimitive v = True"

text \<open>
  \<^verbatim>\<open>isEqual\<close> of lodash on these values: primitives by type and value, arrays by
  length and position, objects by the number of keys and, for every key of the first, the
  presence of the key in the second with an equal value.
\<close>

fun isEqual :: "jsval \<Rightarrow> jsval \<Rightarrow> bool"
  and equalArrays :: "jsval list \<Rightarrow> jsval list \<Rightarrow> bool"
  and equalObjects :: "(string \<times> jsval) list \<Rightarrow> (string \<times> jsval) list \<Rightarrow> bool" where
  "isEqual Undefined b = (b = Undefined)"
| "isEqual Null b = (b = Null)"
| "isEqual (Bool x) b = (b = Bool x)"
| "isEqual (Num x) b = (b = Num x)"
| "isEqual (Str x) b = (b = Str x)"
| "isEqual (Arr xs) b = (case b of Arr ys \<Rightarrow> equalArrays xs ys | _ \<Rightarrow> False)"
| "isEqual (Obj ps) b =
     (case b of Obj qs \<Rightarrow> length ps = length qs \<and> equalObjects ps qs | _ \<Rightarrow> False)"
| "equalArrays [] ys = (ys = [])"
| "equalArrays (x # xs) ys =
     (case ys of [] \<Rightarrow> False | y # ys' \<Rightarrow> isEqual x y \<and> equalArrays xs ys')"
| "equalObjects [] qs = True"
| "equalObjects (p # ps) qs =
     (case map_of qs (fst p) of
        None \<Rightarrow> False
      | Some w \<Rightarrow> isEqual (snd p) w \<and> equalObjects ps qs)"

text \<open>
  Reading a property of a value: \<^verbatim>\<open>v.key\<close> is \<^verbatim>\<open>undefined\<close> when the value has
  no such own property. (The reads of the source are all guarded by truthiness, so the
  \<^verbatim>\<open>TypeError\<close> of \<^verbatim>\<open>undefined.key\<close> does not arise.)
\<close>

fun property :: "jsval \<Rightarrow> string \<Rightarrow> jsval" where
  "property (Obj ps) k = (case map_of ps k of None \<Rightarrow> Undefined | Some v \<Rightarrow> v)"
| "property v k = Undefined"

section \<open>The installation state and the class\<close>

text \<open>
  The state file \<^verbatim>\<open>.hyperinstall-state.json\<close>: the global cache breaker and one
  recorded value per package name. A missing file is read as \<^verbatim>\<open>{}\<close>: the cache breaker
  is \<^verbatim>\<open>undefined\<close> and there are no packages.
\<close>

record installationState =
  cacheBreaker :: jsval
  packages :: "(string \<times> jsval) list"

definition CACHE_BREAKER :: jsval where
  "CACHE_BREAKER = Num 0"

definition emptyState :: installationState where
  "emptyState = \<lparr>cacheBreaker = Undefined, packages = []\<rparr>"

record hyperinstall =
  root :: string
  forceInstallation :: bool
  state :: installationState
  updatedPackages :: "(string \<times> jsval) list"

definition constructor :: "string \<Rightarrow> hyperinstall" where
  "constructor r =
     \<lparr>root = r, forceInstallation = False, state = emptyState, updatedPackages = []\<rparr>"

text \<open>
  \<^verbatim>\<open>get(this.state.packages, name)\<close>: the recorded value of the package, or
  \<^verbatim>\<open>undefined\<close>. (lodash reads a name that is a key of the object as that key; a
  name that is no key is looked up as a property path, which finds nothing unless the name
  spells a path into the record of another package.)
\<close>

definition get :: "(string \<times> jsval) list \<Rightarrow> string \<Rightarrow> jsval" where
  "get ps name = (case map_of ps name of None \<Rightarrow> Undefined | Some v \<Rightarrow> v)"

section \<open>The change detector\<close>

text \<open>
  \<^verbatim>\<open>packageNeedsUpdate(name, cacheBreaker, deps, unversionedDepChecksums, shrinkwrap)\<close>,
  lines 254 to 272, with the four tests in the order of the source.
\<close>

definition packageNeedsUpdate ::
  "hyperinstall \<Rightarrow> string \<Rightarrow> jsval \<Rightarrow> jsval \<Rightarrow> jsval \<Rightarrow> jsval \<Rightarrow> bool" where
  "packageNeedsUpdate h name cb deps unversionedDepChecksums shrinkwrap =
     (let packageState = get (packages (state h)) name in
      if \<not> truthy packageState \<or> \<not> strictEquals (property packageState ''cacheBreaker'') cb
      then True
      else
        let installedShrinkwrap = property packageState ''shrinkwrap'' in
        if truthy shrinkwrap \<and> isEqual shrinkwrap installedShrinkwrap then True
        else
          let installedDeps = property packageState ''dependencies'' in
          if \<not> isEqual deps installedDeps then True
          else
            let installedUnversionedDepChecksums =
                  property packageState ''unversionedDependencyChecksums''
            in \<not> isEqual unversionedDepChecksums installedUnversionedDepChecksums)"

text \<open>The condition of the first test alone (line 256).\<close>

definition cacheBreakerTest :: "hyperinstall \<Rightarrow> string \<Rightarrow> jsval \<Rightarrow> bool" where
  "cacheBreakerTest h name cb =
     (let packageState = get (packages (state h)) name in
      \<not> truthy packageState \<or> \<not> strictEquals (property packageState ''cacheBreaker'') cb)"

section \<open>Errors and the collaborators outside the class\<close>

datatype error = ENOENT | TypeError | SyntaxError | Failure string | NeverSettles

text \<open>
  What the class reads and runs without defining it: \<^verbatim>\<open>path.resolve\<close>, the parsed
  \<^verbatim>\<open>package.json\<close> and \<^verbatim>\<open>npm-shrinkwrap.json\<close> at a path (or the error of the
  read or of \<^verbatim>\<open>JSON.parse\<close>), the outcome of the checksums of the local dependencies
  of a package, the outcome of \<^verbatim>\<open>execNpmInstallAsync\<close> at a package path and of
  \<^verbatim>\<open>rimraf\<close> at a path (\<open>None\<close>: it resolves).
\<close>

record env =
  pathResolve :: "string list \<Rightarrow> string"
  packageJSON :: "string \<Rightarrow> error + jsval"
  shrinkwrapJSON :: "string \<Rightarrow> error + jsval"
  unversionedDepChecksums :: "string \<Rightarrow> jsval \<Rightarrow> error + jsval"
  execNpmInstallAsync :: "string \<Rightarrow> error option"
  rimraf :: "string \<Rightarrow> error option"

text \<open>What a run does outside the process, in the order of the calls.\<close>

datatype event = Install string | RemoveNodeModules string

text \<open>
  \<^verbatim>\<open>Object.assign(target, source)\<close> on property lists: a key of the target keeps its
  place and takes the new value, a new key goes to the end. A source that is not an
  object (\<^verbatim>\<open>undefined\<close>, a number, ...) gives nothing; arrays and strings, whose indices
  would be copied, are not dependency tables and are left out.
\<close>

fun ownProperties :: "jsval \<Rightarrow> (string \<times> jsval) list" where
  "ownProperties (Obj ps) = ps"
| "ownProperties v = []"

definition assign ::
  "(string \<times> jsval) list \<Rightarrow> (string \<times> jsval) list \<Rightarrow> (string \<times> jsval) list" where
  "assign target source = fold (\<lambda>p. AList.update (fst p) (snd p)) source target"

text \<open>
  \<^verbatim>\<open>JSON.parse(JSON.stringify(v))\<close>: what the next run reads of a value this run
  writes. A property whose value is \<^verbatim>\<open>undefined\<close> is not written; an \<^verbatim>\<open>undefined\<close>
  array element is written as \<^verbatim>\<open>null\<close>.
\<close>

fun jsonRoundTrip :: "jsval \<Rightarrow> jsval"
  and roundTripElems :: "jsval list \<Rightarrow> jsval list"
  and roundTripProps :: "(string \<times> jsval) list \<Rightarrow> (string \<times> jsval) list" where
  "jsonRoundTrip (Arr xs) = Arr (roundTripElems xs)"
| "jsonRoundTrip (Obj ps) = Obj (roundTripProps ps)"
| "jsonRoundTrip v = v"
| "roundTripElems [] = []"
| "roundTripElems (x # xs) =
     (if x = Undefined then Null else jsonRoundTrip x) # roundTripElems xs"
| "roundTripProps [] = []"
| "roundTripProps (p # ps) =
     (if snd p = Undefined then roundTripProps ps
      else (fst p, jsonRoundTrip (snd p)) # roundTripProps ps)"

section \<open>Reading the fingerprint of a package\<close>

text \<open>\<^verbatim>\<open>readShrinkwrapAsync\<close>, lines 161 to 173: a missing lockfile is \<^verbatim>\<open>undefined\<close>.\<close>

definition readShrinkwrapAsync :: "env \<Rightarrow> hyperinstall \<Rightarrow> string \<Rightarrow> error + jsval" where
  "readShrinkwrapAsync e h name =
     (let shrinkwrapJSONPath = pathResolve e [root h, name, ''npm-shrinkwrap.json''] in
      case shrinkwrapJSON e shrinkwrapJSONPath of
        Inl err \<Rightarrow> (if err = ENOENT then Inr Undefined else Inl err)
      | Inr v \<Rightarrow> Inr v)"

text \<open>
  \<^verbatim>\<open>readPackageDepsAsync\<close>, lines 175 to 184: the regular dependencies, then the
  development ones over them. Reading a property of \<^verbatim>\<open>null\<close> throws.
\<close>

definition readPackageDepsAsync :: "env \<Rightarrow> hyperinstall \<Rightarrow> string \<Rightarrow> error + jsval" where
  "readPackageDepsAsync e h name =
     (let packageJSONPath = pathResolve e [root h, name, ''package.json''] in
      case packageJSON e packageJSONPath of
        Inl err \<Rightarrow> Inl err
      | Inr pj \<Rightarrow>
          if pj = Null then Inl TypeError
          else
            let packageDeps = assign [] (ownProperties (property pj ''dependencies''));
                packageDeps' = assign packageDeps (ownProperties (property pj ''devDependencies''))
            in Inr (Obj packageDeps'))"

text \<open>
  \<^verbatim>\<open>readPackageInstallationState\<close>, lines 115 to 126. The result is the list of the
  own properties of the object returned: \<^verbatim>\<open>dependencies\<close>,
  \<^verbatim>\<open>unversionedDependencyChecksums\<close>, \<^verbatim>\<open>shrinkwrap\<close>.
\<close>

definition readPackageInstallationState ::
  "env \<Rightarrow> hyperinstall \<Rightarrow> string \<Rightarrow> error + (string \<times> jsval) list" where
  "readPackageInstallationState e h name =
     (case readPackageDepsAsync e h name of
        Inl err \<Rightarrow> Inl err
      | Inr deps \<Rightarrow>
          (case readShrinkwrapAsync e h name of
             Inl err \<Rightarrow> Inl err
           | Inr shrinkwrap \<Rightarrow>
               (case unversionedDepChecksums e name deps of
                  Inl err \<Rightarrow> Inl err
                | Inr unversionedDepChecksums' \<Rightarrow>
                    Inr [(''dependencies'', deps),
                         (''unversionedDependencyChecksums'', unversionedDepChecksums'),
                         (''shrinkwrap'', shrinkwrap)])))"

section \<open>Installing\<close>

text \<open>
  \<^verbatim>\<open>updatePackageAsync\<close>, lines 138 to 153, as one task sees it (the lock is the subject
  of a later section). The third argument is the list of own enumerable properties of
  \<^verbatim>\<open>packageInstallationState\<close>, which is all the spread of line 150 copies.
\<close>

definition updatePackageAsync ::
  "env \<Rightarrow> string \<Rightarrow> jsval \<Rightarrow> (string \<times> jsval) list \<Rightarrow> hyperinstall \<times> event list \<Rightarrow>
   error + hyperinstall \<times> event list" where
  "updatePackageAsync e name cb packageInstallationState hs =
     (let h = fst hs;
          packagePath = pathResolve e [root h, name]
      in case execNpmInstallAsync e packagePath of
           Some err \<Rightarrow> Inl err
         | None \<Rightarrow>
             Inr (h\<lparr>updatedPackages :=
                      AList.update name
                        (Obj (AList.update ''cacheBreaker'' cb packageInstallationState))
                        (updatedPackages h)\<rparr>,
                  snd hs @ [Install packagePath]))"

text \<open>\<^verbatim>\<open>removeNodeModulesDirAsync\<close>, lines 155 to 159.\<close>

definition removeNodeModulesDirAsync ::
  "env \<Rightarrow> string \<Rightarrow> hyperinstall \<times> event list \<Rightarrow> error + hyperinstall \<times> event list" where
  "removeNodeModulesDirAsync e name hs =
     (let nodeModulesPath = pathResolve e [root (fst hs), name, ''node_modules''] in
      case rimraf e nodeModulesPath of
        Some err \<Rightarrow> Inl err
      | None \<Rightarrow> Inr (fst hs, snd hs @ [RemoveNodeModules nodeModulesPath]))"

text \<open>
  \<^verbatim>\<open>updatePackageIfNeededAsync\<close>, lines 128 to 136. Line 133 calls the detector with
  three arguments: the whole fingerprint object arrives as \<^verbatim>\<open>deps\<close>, and
  \<^verbatim>\<open>unversionedDepChecksums\<close> and \<^verbatim>\<open>shrinkwrap\<close> are \<^verbatim>\<open>undefined\<close>.
\<close>

definition updatePackageIfNeededAsync ::
  "env \<Rightarrow> string \<Rightarrow> jsval \<Rightarrow> hyperinstall \<times> event list \<Rightarrow> error + hyperinstall \<times> event list" where
  "updatePackageIfNeededAsync e name cb hs =
     (case readPackageInstallationState e (fst hs) name of
        Inl err \<Rightarrow> Inl err
      | Inr packageInstallationState \<Rightarrow>
          if forceInstallation (fst hs) then
            (case removeNodeModulesDirAsync e name hs of
               Inl err \<Rightarrow> Inl err
             | Inr hs' \<Rightarrow> updatePackageAsync e name cb packageInstallationState hs')
          else if packageNeedsUpdate (fst hs) name cb (Obj packageInstallationState)
                    Undefined Undefined
          then updatePackageAsync e name cb packageInstallationState hs
          else Inr hs)"

section \<open>The run\<close>

text \<open>
  The two branches of \<^verbatim>\<open>installAsync\<close>, lines 48 to 57, over the declared packages in
  the order of the config. (The tasks run concurrently; the order in which they reach the
  lock permutes the events and the keys of \<^verbatim>\<open>updatedPackages\<close>, nothing else, and a
  rejected task rejects the run.)

  Line 50 has no \<^verbatim>\<open>await\<close>: what it passes to \<^verbatim>\<open>updatePackageAsync\<close> is the
  Promise of the fingerprint, an object with no own enumerable property, and a rejection of
  that Promise is not seen by the run.
\<close>

fun resetAll ::
  "env \<Rightarrow> (string \<times> jsval) list \<Rightarrow> hyperinstall \<times> event list \<Rightarrow>
   error + hyperinstall \<times> event list" where
  "resetAll e [] hs = Inr hs"
| "resetAll e (p # ps) hs =
     (case updatePackageAsync e (fst p) (snd p) [] hs of
        Inl err \<Rightarrow> Inl err
      | Inr hs' \<Rightarrow> resetAll e ps hs')"

fun updateAllIfNeeded ::
  "env \<Rightarrow> (string \<times> jsval) list \<Rightarrow> hyperinstall \<times> event list \<Rightarrow>
   error + hyperinstall \<times> event list" where
  "updateAllIfNeeded e [] hs = Inr hs"
| "updateAllIfNeeded e (p # ps) hs =
     (case updatePackageIfNeededAsync e (fst p) (snd p) hs of
        Inl err \<Rightarrow> Inl err
      | Inr hs' \<Rightarrow> updateAllIfNeeded e ps hs')"

text \<open>\<^verbatim>\<open>readInstallationStateAsync\<close> and \<^verbatim>\<open>readPackageListAsync\<close>, lines 80 to 113.\<close>

definition readInstallationStateAsync ::
  "error + installationState \<Rightarrow> error + installationState" where
  "readInstallationStateAsync stateFile =
     (case stateFile of
        Inl err \<Rightarrow> (if err = ENOENT then Inr emptyState else Inl err)
      | Inr st \<Rightarrow> Inr st)"

definition readPackageListAsync ::
  "error + (string \<times> jsval) list \<Rightarrow> error + (string \<times> jsval) list" where
  "readPackageListAsync configFile =
     (case configFile of
        Inl err \<Rightarrow> (if err = ENOENT then Inr [] else Inl err)
      | Inr pkgs \<Rightarrow> Inr pkgs)"

text \<open>Lines 72 to 76: the names that the config does not declare are deleted.\<close>

definition prune ::
  "(string \<times> jsval) list \<Rightarrow> (string \<times> jsval) list \<Rightarrow> (string \<times> jsval) list" where
  "prune pkgs statePackages = filter (\<lambda>p. map_of pkgs (fst p) \<noteq> None) statePackages"

text \<open>
  \<^verbatim>\<open>writeInstallationStateAsync\<close>, lines 94 to 98: the content of the state file after
  the write, as the next run parses it.
\<close>

definition writeInstallationStateAsync :: "installationState \<Rightarrow> installationState" where
  "writeInstallationStateAsync st =
     \<lparr>cacheBreaker = jsonRoundTrip (cacheBreaker st), packages = roundTripProps (packages st)\<rparr>"

record runResult =
  this :: hyperinstall
  persisted :: installationState
  events :: "event list"

text \<open>
  \<^verbatim>\<open>installAsync\<close>, lines 41 to 78. \<^verbatim>\<open>this.state\<close> and the local \<^verbatim>\<open>state\<close> are one
  object, so the instance sees the updates of lines 70 to 76.
\<close>

definition installAsync ::
  "env \<Rightarrow> hyperinstall \<Rightarrow> error + installationState \<Rightarrow> error + (string \<times> jsval) list \<Rightarrow>
   error + runResult" where
  "installAsync e h stateFile configFile =
     (case readInstallationStateAsync stateFile of
        Inl err \<Rightarrow> Inl err
      | Inr st \<Rightarrow>
     (case readPackageListAsync configFile of
        Inl err \<Rightarrow> Inl err
      | Inr pkgs \<Rightarrow>
     (let h1 = h\<lparr>state := st\<rparr> in
      case (if \<not> strictEquals (cacheBreaker st) CACHE_BREAKER
            then resetAll e pkgs (h1, [])
            else updateAllIfNeeded e pkgs (h1, []))
      of
        Inl err \<Rightarrow> Inl err
      | Inr hs \<Rightarrow>
          let st' = st\<lparr>cacheBreaker := CACHE_BREAKER,
                      packages :=
                        prune pkgs (assign (assign [] (packages st)) (updatedPackages (fst hs)))\<rparr>
          in Inr \<lparr>this = (fst hs)\<lparr>state := st'\<rparr>,
                  persisted = writeInstallationStateAsync st',
                  events = snd hs\<rparr>)))"

section \<open>The reset operation\<close>

definition STATE_FILE :: string where
  "STATE_FILE = ''.hyperinstall-state.json''"

text \<open>
  \<^verbatim>\<open>fs.promise.unlink\<close> on the set of the files that exist: a missing file rejects with
  \<^verbatim>\<open>ENOENT\<close>.
\<close>

definition unlink :: "string set \<Rightarrow> string \<Rightarrow> error + string set" where
  "unlink files filename =
     (if filename \<in> files then Inr (files - {filename}) else Inl ENOENT)"

text \<open>
  \<^verbatim>\<open>cleanAsync\<close>, lines 274 to 277: the rejection of \<^verbatim>\<open>unlink\<close> is the rejection
  of \<^verbatim>\<open>cleanAsync\<close>; nothing catches it.
\<close>

definition cleanAsync ::
  "(string list \<Rightarrow> string) \<Rightarrow> string set \<Rightarrow> hyperinstall \<Rightarrow> error + string set" where
  "cleanAsync pathJoin files h =
     (let stateFilename = pathJoin [root h, STATE_FILE] in unlink files stateFilename)"

section \<open>The checksum of a local dependency\<close>

text \<open>
  A Promise is resolved, rejected, or never settled. \<^verbatim>\<open>createHash algorithm data\<close> is
  the hex digest of a hash stream of that algorithm after updates whose concatenation is
  \<open>data\<close>; the digest function itself is a parameter.
\<close>

datatype 'a promise = Resolved 'a | Rejected error | Pending

text \<open>\<^verbatim>\<open>readFileChecksumAsync\<close>, lines 247 to 252, on the outcome of reading the file.\<close>

definition readFileChecksumAsync ::
  "(string \<Rightarrow> string \<Rightarrow> string) \<Rightarrow> error + string \<Rightarrow> string \<Rightarrow> error + string" where
  "readFileChecksumAsync createHash file algorithm =
     (case file of
        Inl err \<Rightarrow> Inl err
      | Inr contents \<Rightarrow> Inr (createHash algorithm contents))"

text \<open>
  \<^verbatim>\<open>promiseProps\<close>: the object of the resolved values, or the rejection of the first
  property that rejects.
\<close>

fun promiseProps :: "(string \<times> (error + 'a)) list \<Rightarrow> error + (string \<times> 'a) list" where
  "promiseProps [] = Inr []"
| "promiseProps (p # ps) =
     (case snd p of
        Inl err \<Rightarrow> Inl err
      | Inr v \<Rightarrow>
          (case promiseProps ps of
             Inl err \<Rightarrow> Inl err
           | Inr vs \<Rightarrow> Inr ((fst p, v) # vs)))"

text \<open>\<^verbatim>\<open>sortBy\<close> of lodash on an object of strings: its values in ascending order.\<close>

definition sortBy :: "(string \<times> string) list \<Rightarrow> string list" where
  "sortBy fileChecksums = sort (map snd fileChecksums)"

text \<open>Lines 238 to 242: the hash of the sorted hashes.\<close>

definition hashOfHashes ::
  "(string \<Rightarrow> string \<Rightarrow> string) \<Rightarrow> (string \<times> string) list \<Rightarrow> string" where
  "hashOfHashes createHash fileChecksums = createHash ''sha1'' (concat (sortBy fileChecksums))"

text \<open>
  \<^verbatim>\<open>readPackageChecksumAsync\<close>, lines 218 to 245. The file stream either fails or
  ends after its \<^verbatim>\<open>child\<close> events, each entry given by its path relative to the
  package and the outcome of reading it. When the read of an entry fails, the handler of
  \<^verbatim>\<open>end\<close> throws before it calls \<^verbatim>\<open>resolve\<close>, and the Promise is never settled.
\<close>

definition readPackageChecksumAsync ::
  "(string \<Rightarrow> string \<Rightarrow> string) \<Rightarrow> error + (string \<times> (error + string)) list \<Rightarrow>
   string promise" where
  "readPackageChecksumAsync createHash fileListStream =
     (case fileListStream of
        Inl err \<Rightarrow> Rejected err
      | Inr entries \<Rightarrow>
          let fileChecksumPromises =
                fold (\<lambda>entry.
                        AList.update (fst entry)
                          (readFileChecksumAsync createHash (snd entry) ''sha1''))
                  entries []
          in (case promiseProps fileChecksumPromises of
                Inl err \<Rightarrow> Pending
              | Inr fileChecksums \<Rightarrow> Resolved (hashOfHashes createHash fileChecksums)))"


section \<open>Classifying the local dependencies\<close>

text \<open>
  The working directory of the process, and every directory \<^verbatim>\<open>process.chdir\<close> has
  set, in order.
\<close>

record processState =
  cwd :: string
  chdirs :: "string list"

definition chdir :: "(string \<Rightarrow> bool) \<Rightarrow> string \<Rightarrow> processState \<Rightarrow> error + processState" where
  "chdir dirExists d p =
     (if dirExists d then Inr \<lparr>cwd = d, chdirs = chdirs p @ [d]\<rparr> else Inl ENOENT)"

datatype descriptor = Descriptor (dtype: string) (spec: string)

text \<open>
  The loop of lines 206 to 211 over the pairs of \<^verbatim>\<open>deps\<close>. \<^verbatim>\<open>npmPackageArg\<close>
  resolves paths against the working directory of the process, which is its first argument
  here, and throws on an argument it cannot parse.
\<close>

fun localDepsLoop ::
  "(string \<Rightarrow> string \<Rightarrow> error + descriptor) \<Rightarrow> string \<Rightarrow> (string \<times> string) list \<Rightarrow>
   (string \<times> string) list \<Rightarrow> error + (string \<times> string) list" where
  "localDepsLoop npmPackageArg wd [] localDeps = Inr localDeps"
| "localDepsLoop npmPackageArg wd (p # ps) localDeps =
     (case npmPackageArg wd (fst p @ ''@'' @ snd p) of
        Inl err \<Rightarrow> Inl err
      | Inr d \<Rightarrow>
          localDepsLoop npmPackageArg wd ps
            (if dtype d = ''local'' then AList.update (fst p) (spec d) localDeps
             else localDeps))"

text \<open>
  \<^verbatim>\<open>filterLocalDeps\<close>, lines 197 to 216. The first \<^verbatim>\<open>chdir\<close> is outside the
  \<^verbatim>\<open>try\<close>; the second is the \<^verbatim>\<open>finally\<close>, whose own exception replaces the
  outcome of the loop. \<^verbatim>\<open>path.resolve\<close> takes the working directory as its first
  argument. The state of the process is returned on every path.
\<close>

definition filterLocalDeps ::
  "(string \<Rightarrow> string list \<Rightarrow> string) \<Rightarrow> (string \<Rightarrow> bool) \<Rightarrow>
   (string \<Rightarrow> string \<Rightarrow> error + descriptor) \<Rightarrow> hyperinstall \<Rightarrow> string \<Rightarrow>
   (string \<times> string) list \<Rightarrow> processState \<Rightarrow>
   (error + (string \<times> string) list) \<times> processState" where
  "filterLocalDeps resolve dirExists npmPackageArg h name deps p =
     (let originalCwd = cwd p;
          packagePath = resolve (cwd p) [root h, name]
      in case chdir dirExists packagePath p of
           Inl err \<Rightarrow> (Inl err, p)
         | Inr p1 \<Rightarrow>
             let outcome = localDepsLoop npmPackageArg (cwd p1) deps [] in
             (case chdir dirExists originalCwd p1 of
                Inl err \<Rightarrow> (Inl err, p1)
              | Inr p2 \<Rightarrow> (outcome, p2)))"

section \<open>The install lock\<close>

text \<open>
  Where a task of \<^verbatim>\<open>updatePackageAsync\<close> stands: before line 140, suspended in
  \<^verbatim>\<open>acquireAsync\<close>, past line 140 with the lock, inside \<^verbatim>\<open>execNpmInstallAsync\<close>
  (line 143), or past the \<^verbatim>\<open>finally\<close> after a resolved or a rejected install.
\<close>

datatype pc = NotStarted | Waiting | Acquired | Installing | Finished | Failed

text \<open>
  The lock of the package \<^verbatim>\<open>await-lock\<close>, created once by the constructor (line 33):
  a flag and the queue of the suspended callers.
\<close>

record awaitLock =
  acquired :: bool
  waitingResolvers :: "string list"

record tasks =
  installLock :: awaitLock
  at :: "string \<Rightarrow> pc"

definition initial :: tasks where
  "initial = \<lparr>installLock = \<lparr>acquired = False, waitingResolvers = []\<rparr>, at = (\<lambda>t. NotStarted)\<rparr>"

text \<open>\<^verbatim>\<open>acquireAsync\<close>: a free lock is taken at once, otherwise the caller is queued.\<close>

definition acquireAsync :: "string \<Rightarrow> tasks \<Rightarrow> tasks" where
  "acquireAsync t s =
     (if \<not> acquired (installLock s)
      then s\<lparr>installLock := (installLock s)\<lparr>acquired := True\<rparr>, at := (at s)(t := Acquired)\<rparr>
      else s\<lparr>installLock :=
               (installLock s)\<lparr>waitingResolvers := waitingResolvers (installLock s) @ [t]\<rparr>,
             at := (at s)(t := Waiting)\<rparr>)"

text \<open>
  \<^verbatim>\<open>release\<close>: with nobody queued the flag is cleared; otherwise a queued caller
  \<open>w\<close> is resumed and the lock stays taken. The package resumes the oldest caller; the
  model lets the schedule name any queued one, and refuses a name that is not queued.
\<close>

definition release :: "string \<Rightarrow> tasks \<Rightarrow> tasks option" where
  "release w s =
     (if waitingResolvers (installLock s) = []
      then Some (s\<lparr>installLock := (installLock s)\<lparr>acquired := False\<rparr>\<rparr>)
      else if w \<in> set (waitingResolvers (installLock s))
      then Some (s\<lparr>installLock :=
                     (installLock s)\<lparr>waitingResolvers :=
                                       remove1 w (waitingResolvers (installLock s))\<rparr>,
                   at := (at s)(w := Acquired)\<rparr>)
      else None)"

text \<open>
  One turn of one task. \<open>EndInstall t ok w\<close>: the install of \<open>t\<close> resolves (\<open>ok\<close>) or
  rejects, and the \<^verbatim>\<open>finally\<close> of line 146 releases the lock in both cases.
\<close>

datatype action = CallAcquire string | StartInstall string | EndInstall string bool string

fun step :: "action \<Rightarrow> tasks \<Rightarrow> tasks option" where
  "step (CallAcquire t) s = (if at s t = NotStarted then Some (acquireAsync t s) else None)"
| "step (StartInstall t) s =
     (if at s t = Acquired then Some (s\<lparr>at := (at s)(t := Installing)\<rparr>) else None)"
| "step (EndInstall t ok w) s =
     (if at s t = Installing
      then release w (s\<lparr>at := (at s)(t := (if ok then Finished else Failed))\<rparr>)
      else None)"

fun run :: "action list \<Rightarrow> tasks \<Rightarrow> tasks option" where
  "run [] s = Some s"
| "run (a # as) s = (case step a s of None \<Rightarrow> None | Some s' \<Rightarrow> run as s')"

text \<open>
  A task holds the lock from the moment \<^verbatim>\<open>acquireAsync\<close> grants it to the
  \<^verbatim>\<open>finally\<close> of line 146. The invariant of the lock: the queued tasks are suspended
  and queued once, the flag is set exactly when some task holds the lock, and at most one
  task holds it.
\<close>

definition holds :: "tasks \<Rightarrow> string \<Rightarrow> bool" where
  "holds s t = (at s t = Acquired \<or> at s t = Installing)"

definition lockInvariant :: "tasks \<Rightarrow> bool" where
  "lockInvariant s =
     ((\<forall>w \<in> set (waitingResolvers (installLock s)). at s w = Waiting) \<and>
      distinct (waitingResolvers (installLock s)) \<and>
      (acquired (installLock s) = (\<exists>t. holds s t)) \<and>
      (\<forall>t t'. holds s t \<and> holds s t' \<longrightarrow> t = t'))"

section \<open>A measure on values\<close>

text \<open>
  A measure for the proofs: how many times \<^verbatim>\<open>.dependencies\<close> can be read from a value
  before the result is no longer an object with that key.
\<close>

fun depsDepth :: "jsval \<Rightarrow> nat"
  and depsDepthProps :: "(string \<times> jsval) list \<Rightarrow> nat" where
  "depsDepth (Obj ps) = depsDepthProps ps"
| "depsDepth Undefined = 0"
| "depsDepth Null = 0"
| "depsDepth (Bool b) = 0"
| "depsDepth (Num n) = 0"
| "depsDepth (Str s) = 0"
| "depsDepth (Arr xs) = 0"
| "depsDepthProps [] = 0"
| "depsDepthProps (p # ps) =
     (if fst p = ''dependencies'' then Suc (depsDepth (snd p)) else depsDepthProps ps)"

section \<open>Workspaces used as examples\<close>

text \<open>An instance whose state was read from a state file with the given packages.\<close>

definition recorded :: "(string \<times> jsval) list \<Rightarrow> hyperinstall" where
  "recorded pkgs =
     (constructor ''/ws'')\<lparr>state := \<lparr>cacheBreaker = CACHE_BREAKER, packages = pkgs\<rparr>\<rparr>"

text \<open>The package \<^verbatim>\<open>pkgA\<close> recorded with token 1, one dependency and the given lockfile.\<close>

definition lockedPackage :: "jsval \<Rightarrow> hyperinstall" where
  "lockedPackage lock =
     recorded [(''pkgA'',
       Obj [(''dependencies'', Obj [(''lodash'', Str ''^4.0.0'')]),
            (''unversionedDependencyChecksums'', Obj []),
            (''shrinkwrap'', lock),
            (''cacheBreaker'', Num 1)])]"

text \<open>
  Stand-ins for the collaborators in the examples: a path joiner, a digest that only tags
  its input, and a workspace where every package declares one dependency, has no lockfile
  and no local dependency, and every install succeeds.
\<close>

fun joinPath :: "string list \<Rightarrow> string" where
  "joinPath [] = []"
| "joinPath [x] = x"
| "joinPath (x # xs) = x @ ''/'' @ joinPath xs"

definition exampleHash :: "string \<Rightarrow> string \<Rightarrow> string" where
  "exampleHash algorithm data = algorithm @ '':'' @ data"


definition exampleEnv :: env where
  "exampleEnv =
     \<lparr>pathResolve = joinPath,
      packageJSON = (\<lambda>p. Inr (Obj [(''dependencies'', Obj [(''lodash'', Str ''^4.0.0'')])])),
      shrinkwrapJSON = (\<lambda>p. Inl ENOENT),
      unversionedDepChecksums = (\<lambda>name deps. Inr (Obj [])),
      execNpmInstallAsync = (\<lambda>p. None),
      rimraf = (\<lambda>p. None)\<rparr>"

definition scenarioA :: "(string \<times> jsval) list" where
  "scenarioA = [(''pkgA'', Num 1), (''pkgB'', Num 1)]"

text \<open>
  A process started in \<^verbatim>\<open>/home\<close>, and a stand-in for \<^verbatim>\<open>npm-package-arg\<close> that
  knows one registry range and one relative path, which it resolves against the working
  directory as the package does.
\<close>

definition exampleNpmPackageArg :: "string \<Rightarrow> string \<Rightarrow> error + descriptor" where
  "exampleNpmPackageArg wd arg =
     (if arg = ''sibling@../sibling'' then Inr (Descriptor ''local'' (wd @ ''/../sibling''))
      else if arg = ''lodash@^4.0.0'' then Inr (Descriptor ''range'' ''^4.0.0'')
      else Inl (Failure ''Invalid package name''))"

definition exampleProcess :: processState where
  "exampleProcess = \<lparr>cwd = ''/home'', chdirs = []\<rparr>"

definition exampleResolve :: "string \<Rightarrow> string list \<Rightarrow> string" where
  "exampleResolve wd segments = joinPath segments"

text \<open>
  Two packages that both need an install: \<^verbatim>\<open>pkgA\<close> takes the lock, \<^verbatim>\<open>pkgB\<close> queues,
  the install of \<^verbatim>\<open>pkgA\<close> fails, and \<^verbatim>\<open>pkgB\<close> is resumed and installs.
\<close>

definition exampleSchedule :: "action list" where
  "exampleSchedule =
     [CallAcquire ''pkgA'', CallAcquire ''pkgB'', StartInstall ''pkgA'',
      EndInstall ''pkgA'' False ''pkgB'', StartInstall ''pkgB'']"

text \<open>
  The state file after the first and after the second run of the workspace
  \<^verbatim>\<open>{"pkgA": 1, "pkgB": 1}\<close> started without a state file.
\<close>

definition afterFirstRun :: installationState where
  "afterFirstRun =
     \<lparr>cacheBreaker = Num 0,
      packages = [(''pkgA'', Obj [(''cacheBreaker'', Num 1)]),
                  (''pkgB'', Obj [(''cacheBreaker'', Num 1)])]\<rparr>"

definition afterSecondRun :: installationState where
  "afterSecondRun =
     \<lparr>cacheBreaker = Num 0,
      packages =
        [(''pkgA'',
          Obj [(''dependencies'', Obj [(''lodash'', Str ''^4.0.0'')]),
               (''unversionedDependencyChecksums'', Obj []),
               (''cacheBreaker'', Num 1)]),
         (''pkgB'',
          Obj [(''dependencies'', Obj [(''lodash'', Str ''^4.0.0'')]),
               (''unversionedDependencyChecksums'', Obj []),
               (''cacheBreaker'', Num 1)])]\<rparr>"

section \<open>Strict equality and structural equality\<close>

lemma strictEquals_primitive: "isPrimitive b \<Longrightarrow> strictEquals a b = isEqual a b"
  by (cases a; cases b) simp_all

lemma strictEquals_reference: "\<not> isPrimitive b \<Longrightarrow> \<not> strictEquals a b"
  by (cases a; cases b) simp_all

section \<open>The cache-breaker test of the detector\<close>

text \<open>
  C4, as the code has it. The first test of \<^verbatim>\<open>packageNeedsUpdate\<close> compares the
  recorded and the declared token with \<^verbatim>\<open>!==\<close>. For a declared token that is null, a
  boolean, a number or a string, the test flags the package exactly when no truthy value is
  recorded for it or the two tokens are structurally unequal. For a declared token that is
  an array or an object the test always flags the package, whatever is recorded. Whenever
  the test flags, the detector returns true.
\<close>

theorem cacheBreaker_strict:
  "(isPrimitive cb \<longrightarrow>
      cacheBreakerTest h name cb =
        (\<not> truthy (get (packages (state h)) name) \<or>
         \<not> isEqual (property (get (packages (state h)) name) ''cacheBreaker'') cb)) \<and>
   (\<not> isPrimitive cb \<longrightarrow> cacheBreakerTest h name cb) \<and>
   (cacheBreakerTest h name cb \<longrightarrow> packageNeedsUpdate h name cb deps u s)"
  by (auto simp: cacheBreakerTest_def packageNeedsUpdate_def Let_def
      strictEquals_primitive strictEquals_reference)

theorem cacheBreaker_strict_witness:
  "isPrimitive (Num 2) \<and>
   cacheBreakerTest (recorded [(''pkgA'', Obj [(''cacheBreaker'', Num 1)])]) ''pkgA'' (Num 2) \<and>
   packageNeedsUpdate (recorded [(''pkgA'', Obj [(''cacheBreaker'', Num 1)])]) ''pkgA'' (Num 2)
     (Obj []) (Obj []) Undefined \<and>
   \<not> isPrimitive (Obj []) \<and>
   cacheBreakerTest (recorded [(''pkgA'', Obj [(''cacheBreaker'', Obj [])])]) ''pkgA'' (Obj [])"
  using cacheBreaker_strict [of "Num 2" "recorded [(''pkgA'', Obj [(''cacheBreaker'', Num 1)])]"
      "''pkgA''" "Obj []" "Obj []" Undefined]
    cacheBreaker_strict [of "Obj []" "recorded [(''pkgA'', Obj [(''cacheBreaker'', Obj [])])]"
      "''pkgA''" "Obj []" "Obj []" Undefined]
  by (simp add: recorded_def constructor_def get_def)

text \<open>
  C4 as stated fails: with the token \<^verbatim>\<open>[1]\<close> declared and an equal \<^verbatim>\<open>[1]\<close>
  recorded, the tokens are structurally equal and the first test flags the package.
\<close>

theorem cacheBreaker_structural_counterexample:
  "truthy
     (get (packages (state (recorded [(''pkgA'', Obj [(''cacheBreaker'', Arr [Num 1])])])))
        ''pkgA'') \<and>
   isEqual
     (property
        (get (packages (state (recorded [(''pkgA'', Obj [(''cacheBreaker'', Arr [Num 1])])])))
           ''pkgA'')
        ''cacheBreaker'')
     (Arr [Num 1]) \<and>
   cacheBreakerTest (recorded [(''pkgA'', Obj [(''cacheBreaker'', Arr [Num 1])])]) ''pkgA''
     (Arr [Num 1])"
  by (simp add: recorded_def constructor_def get_def cacheBreakerTest_def)

section \<open>The lockfile test of the detector\<close>

text \<open>
  C2, as the code has it. For a package with a truthy recorded value whose recorded token
  is strictly equal to the declared one: when the lockfile handed to
  \<^verbatim>\<open>packageNeedsUpdate\<close> as its \<^verbatim>\<open>shrinkwrap\<close> argument is truthy (any JSON document
  but null, false, 0 and the empty string) and structurally equal to the recorded lockfile,
  the detector returns true.
\<close>

theorem lockfile_step:
  "truthy (get (packages (state h)) name) \<Longrightarrow>
   strictEquals (property (get (packages (state h)) name) ''cacheBreaker'') cb \<Longrightarrow>
   truthy shrinkwrap \<Longrightarrow>
   isEqual shrinkwrap (property (get (packages (state h)) name) ''shrinkwrap'') \<Longrightarrow>
   packageNeedsUpdate h name cb deps u shrinkwrap"
  by (simp add: packageNeedsUpdate_def Let_def)

theorem lockfile_step_witness:
  "truthy (get (packages (state (lockedPackage (Obj [(''name'', Str ''pkgA'')])))) ''pkgA'') \<and>
   packageNeedsUpdate (lockedPackage (Obj [(''name'', Str ''pkgA'')])) ''pkgA'' (Num 1)
     (Obj [(''lodash'', Str ''^4.0.0'')]) (Obj []) (Obj [(''name'', Str ''pkgA'')])"
  using lockfile_step [of "lockedPackage (Obj [(''name'', Str ''pkgA'')])" "''pkgA''" "Num 1"
      "Obj [(''name'', Str ''pkgA'')]" "Obj [(''lodash'', Str ''^4.0.0'')]" "Obj []"]
  by (simp add: lockedPackage_def recorded_def constructor_def get_def)

text \<open>
  C2 as stated fails for a lockfile that is present and falsy: the file
  \<^verbatim>\<open>npm-shrinkwrap.json\<close> holds \<^verbatim>\<open>null\<close>, the recorded lockfile is \<^verbatim>\<open>null\<close>, token,
  dependencies and checksums are as recorded, and the detector returns false.
\<close>

theorem lockfile_falsy_counterexample:
  "truthy (get (packages (state (lockedPackage Null))) ''pkgA'') \<and>
   strictEquals
     (property (get (packages (state (lockedPackage Null))) ''pkgA'') ''cacheBreaker'')
     (Num 1) \<and>
   Null \<noteq> Undefined \<and>
   isEqual Null (property (get (packages (state (lockedPackage Null))) ''pkgA'') ''shrinkwrap'') \<and>
   \<not> packageNeedsUpdate (lockedPackage Null) ''pkgA'' (Num 1)
       (Obj [(''lodash'', Str ''^4.0.0'')]) (Obj []) Null"
  by (simp add: lockedPackage_def recorded_def constructor_def get_def packageNeedsUpdate_def)

section \<open>The checksum of a directory\<close>

lemma update_fresh: "k \<notin> fst ` set acc \<Longrightarrow> AList.update k v acc = acc @ [(k, v)]"
  by (induction acc) auto

lemma fold_update_distinct:
  "distinct (map fst es) \<Longrightarrow> fst ` set es \<inter> fst ` set acc = {} \<Longrightarrow>
   fold (\<lambda>en. AList.update (fst en) (f (snd en))) es acc = acc @ map (\<lambda>en. (fst en, f (snd en))) es"
proof (induction es arbitrary: acc)
  case Nil
  then show ?case by simp
next
  case (Cons en es)
  have fresh: "fst en \<notin> fst ` set acc" using Cons.prems(2) by auto
  have d: "distinct (map fst es)" using Cons.prems(1) by simp
  have disj: "fst ` set es \<inter> fst ` set (acc @ [(fst en, f (snd en))]) = {}"
    using Cons.prems by auto
  show ?case
    using Cons.IH [OF d disj] by (simp add: update_fresh [OF fresh])
qed

lemma promiseProps_rejects:
  "(\<exists>err. promiseProps ps = Inl err) = (\<exists>v \<in> set (map snd ps). \<exists>err. v = Inl err)"
  by (induction ps) (auto split: sum.splits)

lemma promiseProps_values:
  "promiseProps ps = Inr vs \<Longrightarrow> map (Inr \<circ> snd) vs = map snd ps"
  by (induction ps arbitrary: vs) (auto split: sum.splits)

lemma sort_mset_cong: "mset xs = mset ys \<Longrightarrow> sort xs = sort (ys :: string list)"
  by (rule properties_for_sort) simp_all

lemma hashOfHashes_values:
  "mset (map snd fcs') = mset (map snd fcs) \<Longrightarrow>
   hashOfHashes createHash fcs' = hashOfHashes createHash fcs"
  unfolding hashOfHashes_def sortBy_def by (drule sort_mset_cong) simp

lemma resolved_values:
  assumes "promiseProps ps = Inr vs" "promiseProps ps' = Inr vs'"
    and "mset (map snd ps') = mset (map snd ps)"
  shows "mset (map snd vs') = mset (map snd vs)"
proof -
  have "mset (map (Inr \<circ> snd) vs') = mset (map (Inr \<circ> snd) vs :: (error + 'a) list)"
    using assms by (simp add: promiseProps_values)
  then have "image_mset Inr (mset (map snd vs')) =
      image_mset (Inr :: 'a \<Rightarrow> error + 'a) (mset (map snd vs))"
    by (simp add: multiset.map_comp)
  then show ?thesis
    using multiset.inj_map [OF inj_Inr] by (blast dest: injD)
qed

lemma readPackageChecksumAsync_distinct:
  "distinct (map fst entries) \<Longrightarrow>
   readPackageChecksumAsync createHash (Inr entries) =
     (case promiseProps (map (\<lambda>en. (fst en, readFileChecksumAsync createHash (snd en) ''sha1'')) entries) of
        Inl err \<Rightarrow> Pending
      | Inr fcs \<Rightarrow> Resolved (hashOfHashes createHash fcs))"
  using fold_update_distinct [where f = "\<lambda>c. readFileChecksumAsync createHash c ''sha1''"
      and acc = "[]" and es = entries]
  by (simp add: readPackageChecksumAsync_def)

lemma checksum_of_contents:
  assumes d: "distinct (map fst entries)" and d': "distinct (map fst entries')"
    and m: "mset (map snd entries') = mset (map snd entries)"
  shows "readPackageChecksumAsync createHash (Inr entries') =
         readPackageChecksumAsync createHash (Inr entries)"
proof -
  define g where "g = (\<lambda>c. readFileChecksumAsync createHash c ''sha1'')"
  define ps where "ps = map (\<lambda>en. (fst en, g (snd en))) entries"
  define ps' where "ps' = map (\<lambda>en. (fst en, g (snd en))) entries'"
  have s: "map snd ps = map g (map snd entries)" "map snd ps' = map g (map snd entries')"
    by (simp_all add: ps_def ps'_def)
  have vals: "mset (map snd ps') = mset (map snd ps)"
    unfolding s using arg_cong [OF m, of "image_mset g"] by (simp add: multiset.map_comp)
  have sets: "set (map snd ps') = set (map snd ps)"
    using arg_cong [OF vals, of set_mset] by simp
  have rej: "(\<exists>err. promiseProps ps' = Inl err) = (\<exists>err. promiseProps ps = Inl err)"
    unfolding promiseProps_rejects sets ..
  have r: "readPackageChecksumAsync createHash (Inr entries) =
      (case promiseProps ps of Inl err \<Rightarrow> Pending
       | Inr fcs \<Rightarrow> Resolved (hashOfHashes createHash fcs))"
    and r': "readPackageChecksumAsync createHash (Inr entries') =
      (case promiseProps ps' of Inl err \<Rightarrow> Pending
       | Inr fcs \<Rightarrow> Resolved (hashOfHashes createHash fcs))"
    unfolding ps_def ps'_def g_def
    by (rule readPackageChecksumAsync_distinct [OF d], rule readPackageChecksumAsync_distinct [OF d'])
  show ?thesis
  proof (cases "promiseProps ps")
    case (Inl err)
    then obtain err' where "promiseProps ps' = Inl err'" using rej by blast
    with Inl show ?thesis by (simp add: r r')
  next
    case (Inr fcs)
    then obtain fcs' where p': "promiseProps ps' = Inr fcs'"
      using rej by (cases "promiseProps ps'") auto
    have "mset (map snd fcs') = mset (map snd fcs)"
      using resolved_values [OF Inr p' vals] .
    then have "hashOfHashes createHash fcs' = hashOfHashes createHash fcs"
      by (rule hashOfHashes_values)
    with Inr p' show ?thesis by (simp add: r r')
  qed
qed

text \<open>
  C7. For a directory whose stream ends, with entries of distinct paths: whatever the order
  in which the entries are discovered, \<^verbatim>\<open>readPackageChecksumAsync\<close> gives the same
  outcome (the same checksum, or the same unsettled Promise when a read fails); and
  whatever the order in which the checksums of the files arrive in the object that is
  sorted, the hash of the hashes is the same.
\<close>

theorem checksum_order_independent:
  "(distinct (map fst entries) \<and> mset entries' = mset entries \<longrightarrow>
      readPackageChecksumAsync createHash (Inr entries') =
      readPackageChecksumAsync createHash (Inr entries)) \<and>
   (mset fileChecksums' = mset fileChecksums \<longrightarrow>
      hashOfHashes createHash fileChecksums' = hashOfHashes createHash fileChecksums)"
proof (intro conjI impI)
  assume a: "distinct (map fst entries) \<and> mset entries' = mset entries"
  then have k: "mset (map fst entries') = mset (map fst entries)"
    and m: "mset (map snd entries') = mset (map snd entries)"
    by simp_all
  have "distinct (map fst entries')"
    using a mset_eq_imp_distinct_iff [OF k] by simp
  then show "readPackageChecksumAsync createHash (Inr entries') =
      readPackageChecksumAsync createHash (Inr entries)"
    using a m by (intro checksum_of_contents) simp_all
next
  assume "mset fileChecksums' = mset fileChecksums"
  then have "mset (map snd fileChecksums') = mset (map snd fileChecksums)" by simp
  then show "hashOfHashes createHash fileChecksums' = hashOfHashes createHash fileChecksums"
    by (rule hashOfHashes_values)
qed

theorem checksum_order_independent_witness:
  "distinct (map fst [(''a.js'', Inr ''x'' :: error + string), (''b.js'', Inr ''y'')]) \<and>
   mset [(''b.js'', Inr ''y'' :: error + string), (''a.js'', Inr ''x'')] =
     mset [(''a.js'', Inr ''x''), (''b.js'', Inr ''y'')] \<and>
   readPackageChecksumAsync exampleHash (Inr [(''b.js'', Inr ''y''), (''a.js'', Inr ''x'')]) =
     readPackageChecksumAsync exampleHash (Inr [(''a.js'', Inr ''x''), (''b.js'', Inr ''y'')]) \<and>
   hashOfHashes exampleHash [(''b.js'', ''2''), (''a.js'', ''1'')] =
     hashOfHashes exampleHash [(''a.js'', ''1''), (''b.js'', ''2'')]"
proof -
  have h: "distinct (map fst [(''a.js'', Inr ''x'' :: error + string), (''b.js'', Inr ''y'')]) \<and>
      mset [(''b.js'', Inr ''y'' :: error + string), (''a.js'', Inr ''x'')] =
        mset [(''a.js'', Inr ''x''), (''b.js'', Inr ''y'')]"
    by simp
  have h2: "mset [(''b.js'', ''2''), (''a.js'', ''1'')] = mset [(''a.js'', ''1''), (''b.js'', ''2'')]"
    by simp
  show ?thesis
    using h h2
      checksum_order_independent [of "[(''a.js'', Inr ''x''), (''b.js'', Inr ''y'')]"
        "[(''b.js'', Inr ''y''), (''a.js'', Inr ''x'')]" exampleHash
        "[(''b.js'', ''2''), (''a.js'', ''1'')]" "[(''a.js'', ''1''), (''b.js'', ''2'')]"]
    by blast
qed




section \<open>The reset operation without a state file\<close>

text \<open>
  C8, at the failing input. When the state file does not exist, \<^verbatim>\<open>cleanAsync\<close> rejects
  with \<^verbatim>\<open>ENOENT\<close>: it is not a no-op.
\<close>

theorem clean_missing_state_file:
  "pathJoin [root h, STATE_FILE] \<notin> files \<Longrightarrow>
   cleanAsync pathJoin files h = Inl ENOENT"
  by (simp add: cleanAsync_def unlink_def)

theorem clean_missing_state_file_witness:
  "joinPath [root (constructor ''/ws''), STATE_FILE] \<notin> {''/ws/hyperinstall.json''} \<and>
   cleanAsync joinPath {''/ws/hyperinstall.json''} (constructor ''/ws'') = Inl ENOENT"
proof -
  have h: "joinPath [root (constructor ''/ws''), STATE_FILE] \<notin> {''/ws/hyperinstall.json''}"
    by (simp add: constructor_def STATE_FILE_def)
  show ?thesis
    using h clean_missing_state_file [of joinPath "constructor ''/ws''" "{''/ws/hyperinstall.json''}"]
    by blast
qed

section \<open>The working directory during the classification\<close>

text \<open>
  C9, as the code has it. \<^verbatim>\<open>filterLocalDeps\<close> changes the working directory of the
  process to the directory of the package, classifies every dependency with
  \<^verbatim>\<open>npmPackageArg\<close> there, and changes back in its \<^verbatim>\<open>finally\<close>. When the original
  directory can be entered again, the working directory after the call is the one before
  it on every path; when the directory of the package can be entered too, the outcome is
  the classification of the pairs at the directory of the package, and the process has
  changed directory twice.
\<close>

theorem filterLocalDeps_restores_cwd:
  "dirExists (cwd p) \<Longrightarrow>
   cwd (snd (filterLocalDeps resolve dirExists npmPackageArg h name deps p)) = cwd p \<and>
   (dirExists (resolve (cwd p) [root h, name]) \<longrightarrow>
      filterLocalDeps resolve dirExists npmPackageArg h name deps p =
        (localDepsLoop npmPackageArg (resolve (cwd p) [root h, name]) deps [],
         \<lparr>cwd = cwd p, chdirs = chdirs p @ [resolve (cwd p) [root h, name], cwd p]\<rparr>))"
  by (simp add: filterLocalDeps_def chdir_def Let_def)

theorem filterLocalDeps_restores_cwd_witness:
  "cwd exampleProcess = ''/home'' \<and>
   cwd (snd (filterLocalDeps exampleResolve (\<lambda>d. True) exampleNpmPackageArg (constructor ''/ws'')
     ''pkgA'' [(''lodash'', ''^4.0.0''), (''sibling'', ''../sibling'')] exampleProcess)) = ''/home'' \<and>
   fst (filterLocalDeps exampleResolve (\<lambda>d. True) exampleNpmPackageArg (constructor ''/ws'')
     ''pkgA'' [(''lodash'', ''^4.0.0''), (''sibling'', ''../sibling'')] exampleProcess) =
     Inr [(''sibling'', ''/ws/pkgA/../sibling'')]"
  using filterLocalDeps_restores_cwd [of "\<lambda>d. True" exampleProcess exampleResolve
      exampleNpmPackageArg "constructor ''/ws''" "''pkgA''"
      "[(''lodash'', ''^4.0.0''), (''sibling'', ''../sibling'')]"]
  by (simp add: exampleProcess_def exampleResolve_def constructor_def exampleNpmPackageArg_def)

text \<open>
  C9 as stated fails: the call sets the working directory of the process twice.
\<close>

theorem filterLocalDeps_mutates_cwd_counterexample:
  "chdirs exampleProcess = [] \<and>
   chdirs (snd (filterLocalDeps exampleResolve (\<lambda>d. True) exampleNpmPackageArg (constructor ''/ws'')
     ''pkgA'' [(''lodash'', ''^4.0.0''), (''sibling'', ''../sibling'')] exampleProcess)) =
     [''/ws/pkgA'', ''/home'']"
  by (simp add: filterLocalDeps_def chdir_def exampleProcess_def exampleResolve_def constructor_def
      Let_def)

section \<open>Mutual exclusion of the installs\<close>

lemma holds_at_update:
  "holds (s\<lparr>at := (at s)(t := x)\<rparr>) u =
     (if u = t then x = Acquired \<or> x = Installing else holds s u)"
  by (simp add: holds_def)

lemma holds_at_lock_update:
  "holds (s\<lparr>installLock := l, at := (at s)(t := x)\<rparr>) u =
     (if u = t then x = Acquired \<or> x = Installing else holds s u)"
  by (simp add: holds_def)

lemma holds_lock_update: "holds (s\<lparr>installLock := l\<rparr>) u = holds s u"
  by (simp add: holds_def)

lemma lockInvariant_initial: "lockInvariant initial"
  by (simp add: lockInvariant_def initial_def holds_def)

lemma lockInvariant_acquire:
  assumes inv: "lockInvariant s" and t: "at s t = NotStarted"
  shows "lockInvariant (acquireAsync t s)"
proof -
  have nh: "\<not> holds s t" using t by (simp add: holds_def)
  have nw: "t \<notin> set (waitingResolvers (installLock s))"
    using inv t by (auto simp: lockInvariant_def)
  show ?thesis
  proof (cases "acquired (installLock s)")
    case True
    then obtain u where u: "holds s u" using inv by (auto simp: lockInvariant_def)
    then have "u \<noteq> t" using nh by auto
    then have ex: "\<exists>u. u \<noteq> t \<and> holds s u" using u by blast
    show ?thesis
      using inv True nw ex
      by (auto simp: lockInvariant_def acquireAsync_def holds_at_lock_update)
  next
    case False
    then have none: "\<And>u. \<not> holds s u" using inv by (auto simp: lockInvariant_def)
    show ?thesis
      using inv False nw none
      by (auto simp: lockInvariant_def acquireAsync_def holds_at_lock_update)
  qed
qed

lemma lockInvariant_start:
  assumes inv: "lockInvariant s" and t: "at s t = Acquired"
  shows "lockInvariant (s\<lparr>at := (at s)(t := Installing)\<rparr>)"
proof -
  let ?s = "s\<lparr>at := (at s)(t := Installing)\<rparr>"
  have h: "holds s t" using t by (simp add: holds_def)
  have only: "holds s u \<Longrightarrow> u = t" for u
    using inv h unfolding lockInvariant_def by blast
  have nw: "t \<notin> set (waitingResolvers (installLock s))"
    using inv t unfolding lockInvariant_def by auto
  have acq: "acquired (installLock ?s)"
    using inv h unfolding lockInvariant_def by auto
  have c1: "\<forall>w \<in> set (waitingResolvers (installLock ?s)). at ?s w = Waiting"
    using inv nw unfolding lockInvariant_def by auto
  have c2: "distinct (waitingResolvers (installLock ?s))"
    using inv unfolding lockInvariant_def by simp
  have hs: "holds ?s u = (u = t)" for u
    using only [of u] by (cases "u = t") (auto simp: holds_def)
  show ?thesis
    unfolding lockInvariant_def hs using c1 c2 acq by blast
qed

lemma lockInvariant_end:
  assumes inv: "lockInvariant s" and t: "at s t = Installing"
    and x: "x = Finished \<or> x = Failed"
    and r: "release w (s\<lparr>at := (at s)(t := x)\<rparr>) = Some s'"
  shows "lockInvariant s'"
proof -
  have h: "holds s t" using t by (simp add: holds_def)
  have only: "holds s u \<Longrightarrow> u = t" for u
    using inv h unfolding lockInvariant_def by blast
  have nw: "t \<notin> set (waitingResolvers (installLock s))"
    using inv t unfolding lockInvariant_def by auto
  have waiting: "u \<in> set (waitingResolvers (installLock s)) \<Longrightarrow> at s u = Waiting" for u
    using inv unfolding lockInvariant_def by blast
  have d: "distinct (waitingResolvers (installLock s))"
    using inv unfolding lockInvariant_def by blast
  show ?thesis
  proof (cases "waitingResolvers (installLock s) = []")
    case True
    then have s': "s' = s\<lparr>at := (at s)(t := x), installLock := (installLock s)\<lparr>acquired := False\<rparr>\<rparr>"
      using r by (auto simp: release_def)
    have hs: "\<not> holds s' u" for u
      using only [of u] x unfolding s' by (cases "u = t") (auto simp: holds_def)
    have c1: "\<forall>u \<in> set (waitingResolvers (installLock s')). at s' u = Waiting"
      unfolding s' using True by simp
    have c2: "distinct (waitingResolvers (installLock s'))"
      unfolding s' using True by simp
    have c3: "\<not> acquired (installLock s')"
      unfolding s' by simp
    show ?thesis
      unfolding lockInvariant_def using c1 c2 c3 hs by blast
  next
    case False
    then have w: "w \<in> set (waitingResolvers (installLock s))"
      using r by (auto simp: release_def split: if_splits)
    then have s': "s' = s\<lparr>at := (at s)(t := x, w := Acquired),
                     installLock := (installLock s)\<lparr>waitingResolvers :=
                        remove1 w (waitingResolvers (installLock s))\<rparr>\<rparr>"
      using r False by (auto simp: release_def)
    have wt: "w \<noteq> t" using w nw by auto
    have acq: "acquired (installLock s)"
      using inv h unfolding lockInvariant_def by blast
    have c1: "\<forall>u \<in> set (waitingResolvers (installLock s')). at s' u = Waiting"
    proof
      fix u assume "u \<in> set (waitingResolvers (installLock s'))"
      then have u: "u \<in> set (waitingResolvers (installLock s))" and "u \<noteq> w"
        unfolding s' using d by auto
      moreover have "u \<noteq> t" using u nw by auto
      ultimately show "at s' u = Waiting"
        unfolding s' using waiting [of u] by simp
    qed
    have c2: "distinct (waitingResolvers (installLock s'))"
      unfolding s' using d by simp
    have c3: "acquired (installLock s')"
      unfolding s' using acq by simp
    have hs: "holds s' u = (u = w)" for u
    proof (cases "u = w")
      case True
      then show ?thesis unfolding s' by (simp add: holds_def)
    next
      case uw: False
      show ?thesis
      proof (cases "u = t")
        case True
        then show ?thesis unfolding s' using x wt by (auto simp: holds_def)
      next
        case False
        then have "\<not> holds s u" using only [of u] by blast
        then show ?thesis unfolding s' using uw False by (simp add: holds_def)
      qed
    qed
    show ?thesis
      unfolding lockInvariant_def hs using c1 c2 c3 by blast
  qed
qed

lemma lockInvariant_step:
  assumes inv: "lockInvariant s" and st: "step a s = Some s'"
  shows "lockInvariant s'"
proof (cases a)
  case (CallAcquire t)
  then have "at s t = NotStarted" and "s' = acquireAsync t s"
    using st by (simp_all split: if_splits)
  then show ?thesis using inv by (simp add: lockInvariant_acquire)
next
  case (StartInstall t)
  then have "at s t = Acquired" and "s' = s\<lparr>at := (at s)(t := Installing)\<rparr>"
    using st by (simp_all split: if_splits)
  then show ?thesis using inv by (simp add: lockInvariant_start)
next
  case (EndInstall t ok w)
  then have t: "at s t = Installing"
    and r: "release w (s\<lparr>at := (at s)(t := (if ok then Finished else Failed))\<rparr>) = Some s'"
    using st by (simp_all split: if_splits)
  have x: "(if ok then Finished else Failed) = Finished \<or> (if ok then Finished else Failed) = Failed"
    by simp
  show ?thesis by (rule lockInvariant_end [OF inv t x r])
qed

lemma lockInvariant_run: "lockInvariant s \<Longrightarrow> run as s = Some s' \<Longrightarrow> lockInvariant s'"
proof (induction as arbitrary: s)
  case Nil
  then show ?case by simp
next
  case (Cons a as)
  then obtain s1 where s1: "step a s = Some s1" and r: "run as s1 = Some s'"
    by (auto split: option.splits)
  have "lockInvariant s1" using Cons.prems(1) s1 by (rule lockInvariant_step)
  then show ?case using r by (rule Cons.IH)
qed

text \<open>
  C5. In every state that the tasks of one instance reach, in any interleaving of their
  turns and whatever the installs answer: at most one task is inside
  \<^verbatim>\<open>execNpmInstallAsync\<close>, and the lock is taken exactly when some task stands between
  its \<^verbatim>\<open>acquireAsync\<close> and its \<^verbatim>\<open>finally\<close>; so a task that left its install,
  resolved or rejected, no longer holds the lock. (An install is active from the call of
  \<^verbatim>\<open>execNpmInstallAsync\<close> until its Promise settles.)
\<close>

theorem install_mutual_exclusion:
  "run schedule initial = Some s \<Longrightarrow>
   (\<forall>t t'. at s t = Installing \<and> at s t' = Installing \<longrightarrow> t = t') \<and>
   (acquired (installLock s) = (\<exists>t. at s t = Acquired \<or> at s t = Installing))"
proof -
  assume "run schedule initial = Some s"
  then have "lockInvariant s"
    using lockInvariant_initial by (rule lockInvariant_run [rotated])
  then show ?thesis
    unfolding lockInvariant_def holds_def by blast
qed

theorem install_mutual_exclusion_witness:
  "run exampleSchedule initial \<noteq> None \<and>
   at (the (run exampleSchedule initial)) ''pkgA'' = Failed \<and>
   at (the (run exampleSchedule initial)) ''pkgB'' = Installing \<and>
   acquired (installLock (the (run exampleSchedule initial)))"
proof -
  have "\<exists>s. run exampleSchedule initial = Some s \<and> at s ''pkgA'' = Failed \<and>
      at s ''pkgB'' = Installing"
    by (simp add: exampleSchedule_def initial_def acquireAsync_def release_def)
  then obtain s where r: "run exampleSchedule initial = Some s"
    and a: "at s ''pkgA'' = Failed" and b: "at s ''pkgB'' = Installing"
    by blast
  have "acquired (installLock s)"
    using install_mutual_exclusion [OF r] b by blast
  then show ?thesis using r a b by simp
qed

section \<open>The detector as the run calls it\<close>

text \<open>
  \<^verbatim>\<open>isEqual\<close> cannot hold between an object and the value of its own
  \<^verbatim>\<open>dependencies\<close> key: equal values have their \<^verbatim>\<open>dependencies\<close> nested equally deep.
\<close>

lemma depsDepthProps_lookup:
  "depsDepthProps ps =
     (case map_of ps ''dependencies'' of None \<Rightarrow> 0 | Some v \<Rightarrow> Suc (depsDepth v))"
  by (induction ps) auto

lemma equalObjects_lookup:
  "equalObjects ps qs \<Longrightarrow> map_of ps k = Some v \<Longrightarrow> \<exists>w. map_of qs k = Some w \<and> isEqual v w"
  by (induction ps) (auto split: option.splits if_splits)

lemma isEqual_depsDepth: "isEqual a b \<Longrightarrow> depsDepth a \<le> depsDepth b"
proof (induction "depsDepth a" arbitrary: a b)
  case 0
  then show ?case by simp
next
  case (Suc n)
  then obtain ps v where a: "a = Obj ps" and v: "map_of ps ''dependencies'' = Some v"
    and n: "n = depsDepth v"
    by (cases a) (auto simp: depsDepthProps_lookup split: option.splits)
  obtain qs where b: "b = Obj qs" and eq: "equalObjects ps qs"
    using Suc.prems a by (cases b) auto
  obtain w where w: "map_of qs ''dependencies'' = Some w" and vw: "isEqual v w"
    using equalObjects_lookup [OF eq v] by blast
  have "depsDepth v \<le> depsDepth w" using Suc.hyps(1) [OF n vw] .
  then show ?case using a b v w by (simp add: depsDepthProps_lookup)
qed

lemma fingerprint_not_its_dependencies:
  "\<not> isEqual (Obj ((''dependencies'', d) # rest)) d"
proof
  assume "isEqual (Obj ((''dependencies'', d) # rest)) d"
  then have "depsDepth (Obj ((''dependencies'', d) # rest)) \<le> depsDepth d"
    by (rule isEqual_depsDepth)
  then show False by simp
qed

text \<open>
  Hence the call of line 133, which passes the fingerprint object as \<^verbatim>\<open>deps\<close>, flags
  every package whose recorded dependencies are the current ones, or are missing as after
  a run on the full-reset path; and \<^verbatim>\<open>updatePackageIfNeededAsync\<close> installs it.
\<close>

lemma detector_flags_unchanged_package:
  assumes "readPackageInstallationState e h name = Inr fingerprint"
    and "property (get (packages (state h)) name) ''dependencies'' = Undefined \<or>
         Inr (property (get (packages (state h)) name) ''dependencies'') =
           readPackageDepsAsync e h name"
  shows "packageNeedsUpdate h name cb (Obj fingerprint) Undefined Undefined"
proof -
  obtain deps rest where f: "fingerprint = (''dependencies'', deps) # rest"
    and d: "readPackageDepsAsync e h name = Inr deps"
    using assms(1) by (auto simp: readPackageInstallationState_def split: sum.splits)
  have "\<not> isEqual (Obj fingerprint) (property (get (packages (state h)) name) ''dependencies'')"
    using assms(2) d f fingerprint_not_its_dependencies [of deps rest] by auto
  then show ?thesis by (simp add: packageNeedsUpdate_def Let_def)
qed

lemma unchanged_package_is_installed:
  assumes "readPackageInstallationState e (fst hs) name = Inr fingerprint"
    and "property (get (packages (state (fst hs))) name) ''dependencies'' = Undefined \<or>
         Inr (property (get (packages (state (fst hs))) name) ''dependencies'') =
           readPackageDepsAsync e (fst hs) name"
    and "\<not> forceInstallation (fst hs)"
  shows "updatePackageIfNeededAsync e name cb hs = updatePackageAsync e name cb fingerprint hs"
  using assms detector_flags_unchanged_package [OF assms(1,2), of cb]
  by (simp add: updatePackageIfNeededAsync_def)

text \<open>
  What an install records, and what the full-reset path records for every declared
  package: its cache breaker alone.
\<close>

lemma updatePackageAsync_records:
  "updatePackageAsync e name cb fingerprint hs = Inr hs' \<Longrightarrow>
   root (fst hs') = root (fst hs) \<and>
   snd hs' = snd hs @ [Install (pathResolve e [root (fst hs), name])] \<and>
   map_of (updatedPackages (fst hs')) =
     (map_of (updatedPackages (fst hs)))
       (name \<mapsto> Obj (AList.update ''cacheBreaker'' cb fingerprint))"
  by (auto simp: updatePackageAsync_def Let_def update_conv' split: option.splits)

lemma resetAll_records:
  "resetAll e pkgs hs = Inr hs' \<Longrightarrow>
   root (fst hs') = root (fst hs) \<and>
   snd hs' = snd hs @ map (\<lambda>p. Install (pathResolve e [root (fst hs), fst p])) pkgs \<and>
   map_of (updatedPackages (fst hs')) =
     map_of (updatedPackages (fst hs)) ++
       map_of (rev (map (\<lambda>p. (fst p, Obj [(''cacheBreaker'', snd p)])) pkgs))"
proof (induction pkgs arbitrary: hs)
  case Nil
  then show ?case by simp
next
  case (Cons p pkgs)
  then obtain hs1 where one: "updatePackageAsync e (fst p) (snd p) [] hs = Inr hs1"
    and rest: "resetAll e pkgs hs1 = Inr hs'"
    by (auto split: sum.splits)
  note r1 = updatePackageAsync_records [OF one]
  note r2 = Cons.IH [OF rest]
  show ?case
    using r1 r2 by (auto simp: map_add_def fun_eq_iff split: option.splits)
qed

section \<open>Runs of the whole pass\<close>

lemmas run_defs =
  installAsync_def readInstallationStateAsync_def readPackageListAsync_def
  updatePackageAsync_def updatePackageIfNeededAsync_def readPackageInstallationState_def
  readPackageDepsAsync_def readShrinkwrapAsync_def removeNodeModulesDirAsync_def
  packageNeedsUpdate_def get_def assign_def prune_def writeInstallationStateAsync_def
  constructor_def emptyState_def CACHE_BREAKER_def exampleEnv_def scenarioA_def Let_def

text \<open>
  C1, at the failing input. The workspace \<^verbatim>\<open>{"pkgA": 1, "pkgB": 1}\<close> is run without a
  state file and then twice more with nothing changed but the state file each run wrote.
  The second run installs both packages again, and so does the third: the detector is
  called with the whole fingerprint in the place of \<^verbatim>\<open>deps\<close> (line 133), which is never
  equal to the recorded dependencies.
\<close>

theorem second_run_reinstalls:
  "map_sum id persisted
     (installAsync exampleEnv (constructor ''/ws'') (Inl ENOENT) (Inr scenarioA)) =
     Inr afterFirstRun \<and>
   map_sum id events
     (installAsync exampleEnv (constructor ''/ws'') (Inr afterFirstRun) (Inr scenarioA)) =
     Inr [Install ''/ws/pkgA'', Install ''/ws/pkgB''] \<and>
   map_sum id persisted
     (installAsync exampleEnv (constructor ''/ws'') (Inr afterFirstRun) (Inr scenarioA)) =
     Inr afterSecondRun \<and>
   map_sum id events
     (installAsync exampleEnv (constructor ''/ws'') (Inr afterSecondRun) (Inr scenarioA)) =
     Inr [Install ''/ws/pkgA'', Install ''/ws/pkgB'']"
  by (simp add: run_defs afterFirstRun_def afterSecondRun_def)

text \<open>
  C3, at the failing input. On the full-reset path every declared package is installed,
  but the state written records for each package its cache breaker alone: the fingerprint
  that \<^verbatim>\<open>readPackageInstallationState\<close> computes (first conjunct) is not in it, because
  line 50 passes the Promise and not its value.
\<close>

theorem reset_drops_fingerprint:
  "readPackageInstallationState exampleEnv (constructor ''/ws'') ''pkgA'' =
     Inr [(''dependencies'', Obj [(''lodash'', Str ''^4.0.0'')]),
          (''unversionedDependencyChecksums'', Obj []),
          (''shrinkwrap'', Undefined)] \<and>
   map_sum id events
     (installAsync exampleEnv (constructor ''/ws'') (Inl ENOENT) (Inr scenarioA)) =
     Inr [Install ''/ws/pkgA'', Install ''/ws/pkgB''] \<and>
   map_sum id persisted
     (installAsync exampleEnv (constructor ''/ws'') (Inl ENOENT) (Inr scenarioA)) =
     Inr \<lparr>cacheBreaker = Num 0,
          packages = [(''pkgA'', Obj [(''cacheBreaker'', Num 1)]),
                      (''pkgB'', Obj [(''cacheBreaker'', Num 1)])]\<rparr>"
  by (simp add: run_defs)

lemma keys_roundTripProps: "fst ` set (roundTripProps ps) \<subseteq> fst ` set ps"
  by (induction ps) auto

lemma keys_prune: "fst ` set (prune pkgs ps) \<subseteq> fst ` set pkgs"
  by (auto simp: prune_def map_of_eq_None_iff)

text \<open>
  C6. After every run that completes, every name recorded in the state file written (and
  in the state the instance keeps) is a name the config declares, whatever the state file
  held before and whether or not anything was installed.
\<close>

theorem pruning_invariant:
  assumes run: "installAsync e h stateFile configFile = Inr r"
    and cfg: "readPackageListAsync configFile = Inr pkgs"
  shows "fst ` set (packages (persisted r)) \<subseteq> fst ` set pkgs \<and>
         fst ` set (packages (state (this r))) \<subseteq> fst ` set pkgs"
proof -
  obtain st hs where
    r: "r = \<lparr>this = (fst hs)\<lparr>state := st\<lparr>cacheBreaker := CACHE_BREAKER,
                 packages := prune pkgs (assign (assign [] (packages st)) (updatedPackages (fst hs)))\<rparr>\<rparr>,
             persisted = writeInstallationStateAsync (st\<lparr>cacheBreaker := CACHE_BREAKER,
                 packages := prune pkgs (assign (assign [] (packages st)) (updatedPackages (fst hs)))\<rparr>),
             events = snd hs\<rparr>"
    using run cfg
    by (auto simp: installAsync_def Let_def split: sum.splits if_splits)
  show ?thesis
    unfolding r using keys_prune keys_roundTripProps
    by (auto simp: writeInstallationStateAsync_def dest!: subsetD [OF keys_roundTripProps] subsetD [OF keys_prune])
qed

theorem pruning_invariant_witness:
  "(\<exists>r. installAsync exampleEnv (constructor ''/ws'') (Inr afterSecondRun)
          (Inr [(''pkgA'', Num 1)]) = Inr r) \<and>
   ''pkgB'' \<in> fst ` set (packages afterSecondRun) \<and>
   ''pkgB'' \<notin> fst ` set (packages (persisted (projr
      (installAsync exampleEnv (constructor ''/ws'') (Inr afterSecondRun)
         (Inr [(''pkgA'', Num 1)]))))) \<and>
   events (projr (installAsync exampleEnv (constructor ''/ws'') (Inr afterSecondRun)
      (Inr [(''pkgA'', Num 1)]))) = [Install ''/ws/pkgA'']"
proof -
  have "\<exists>r. installAsync exampleEnv (constructor ''/ws'') (Inr afterSecondRun)
      (Inr [(''pkgA'', Num 1)]) = Inr r \<and> events r = [Install ''/ws/pkgA'']"
    by (simp add: run_defs afterSecondRun_def)
  then obtain r where run: "installAsync exampleEnv (constructor ''/ws'') (Inr afterSecondRun)
      (Inr [(''pkgA'', Num 1)]) = Inr r" and ev: "events r = [Install ''/ws/pkgA'']"
    by blast
  have cfg: "readPackageListAsync (Inr [(''pkgA'', Num 1)]) = Inr [(''pkgA'', Num 1)]"
    by (simp add: readPackageListAsync_def)
  have "fst ` set (packages (persisted r)) \<subseteq> fst ` set [(''pkgA'', Num 1)]"
    using pruning_invariant [OF run cfg] by blast
  then have "''pkgB'' \<notin> fst ` set (packages (persisted r))"
    by auto
  moreover have "''pkgB'' \<in> fst ` set (packages afterSecondRun)"
    by (simp add: afterSecondRun_def)
  ultimately show ?thesis using run ev by simp
qed

end
